theory Spec2Isabelle
  imports Complex_Main "HOL-Library.Sublist" "HOL-Library.Char_ord" "HOL-Library.List_Lexorder"
    "HOL-Library.Product_Lexorder"
begin

section \<open>Data model\<close>

text \<open>
  The scripts \<^verbatim>\<open>python_code.py\<close>, \<^verbatim>\<open>app.py\<close> and the notebook export \<^verbatim>\<open>PGKYP.py\<close> run one
  pipeline over three tables read from CSV. A table is modelled as the list of its rows, a row
  as a record of its columns. A numeric cell is a \<open>real option\<close>: \<open>None\<close> is the missing
  value (NaN) of the data-frame library, \<open>Some v\<close> a number, taken as an exact real (rounding
  of binary floating point is not modelled). A timestamp is the triple (year, month, day),
  ordered lexicographically, which is chronological order.
\<close>

type_synonym timestamp = "int \<times> int \<times> int"

type_synonym period = int

datatype error = ValueError | KeyError

text \<open>A data frame with numeric cells: the row labels (\<open>index\<close>), the column labels and
  the cells row by row. The columns \<^verbatim>\<open>x\<close>, \<^verbatim>\<open>y\<close>, \<^verbatim>\<open>z\<close> of the well table are named
  \<open>well_x\<close>, \<open>well_y\<close>, \<open>well_z\<close>, and the column \<^verbatim>\<open>w_id\<close> of the volume table
  \<open>vw_id\<close>.\<close>

record 'i frame =
  index :: "'i list"
  columns :: "string list"
  cells :: "real option list list"

record event =
  Date :: timestamp
  Easting :: real
  Northing :: real
  Depth_SS :: real
  Moment_Magnitude :: "real option"

record well =
  Name :: string
  Type :: string
  well_x :: real
  well_y :: real
  well_z :: real

record well_loc = well +
  w_id :: string

record volume =
  HOLE_NAME :: string
  START_DATE :: timestamp
  OIL :: "real option"
  WATER :: "real option"
  STEAM_INJECTION :: "real option"
  WATER_INJECTION :: "real option"

record volume_rec = volume +
  INJECTED :: "real option"
  PRODUCED :: "real option"
  TOTAL :: "real option"
  prefix_col :: "string option"
  vw_id :: "string option"

section \<open>Arithmetic on nullable cells\<close>

text \<open>\<^verbatim>\<open>a + b\<close> on two columns: a missing operand makes the sum missing.\<close>

fun nadd :: "real option \<Rightarrow> real option \<Rightarrow> real option" where
  "nadd (Some a) (Some b) = Some (a + b)"
| "nadd _ _ = None"

text \<open>\<^verbatim>\<open>-a\<close> on a column.\<close>

fun nneg :: "real option \<Rightarrow> real option" where
  "nneg (Some a) = Some (- a)"
| "nneg None = None"

text \<open>\<^verbatim>\<open>df[[...]].sum(axis=1)\<close>: the row sum skips missing cells (an all-missing row sums to 0).\<close>

definition sum_skipna :: "real option list \<Rightarrow> real option" where
  "sum_skipna cs = Some (sum_list (map (\<lambda>c. case c of None \<Rightarrow> 0 | Some v \<Rightarrow> v) cs))"

section \<open>Processing the well volumes\<close>

text \<open>\<^verbatim>\<open>s.split(sep)\<close> of Python for a one-character separator: the pieces between the separators,
  one more than there are separators.\<close>

fun split_on :: "char \<Rightarrow> string \<Rightarrow> string list" where
  "split_on c [] = [[]]"
| "split_on c (a # s) =
     (if a = c then [] # split_on c s
      else (case split_on c s of [] \<Rightarrow> [[a]] | p # ps \<Rightarrow> (a # p) # ps))"

text \<open>\<^verbatim>\<open>Series.str.split(sep, expand=True)\<close>: a frame with as many columns as the longest split
  has pieces (none for an empty series); shorter rows are padded with missing values.\<close>

definition expand_width :: "'a list list \<Rightarrow> nat" where
  "expand_width rows = foldr (\<lambda>r n. max (length r) n) rows 0"

definition pad_row :: "nat \<Rightarrow> 'a list \<Rightarrow> 'a option list" where
  "pad_row n r = map Some r @ replicate (n - length r) None"

definition str_split_expand :: "char \<Rightarrow> string list \<Rightarrow> nat \<times> string option list list" where
  "str_split_expand c names =
     (let rows = map (split_on c) names; n = expand_width rows
      in (n, map (pad_row n) rows))"

text \<open>Lines 24-28 of \<^verbatim>\<open>python_code.py\<close> (52-56 of \<^verbatim>\<open>app.py\<close>). The three derived volumes are
  computed row by row. Assigning the split frame to the two columns
  \<^verbatim>\<open>['prefix','w_id']\<close> raises ValueError (columns must be same length as key) unless the
  frame has exactly two columns.\<close>

definition derive_volumes :: "volume \<Rightarrow> string option \<Rightarrow> string option \<Rightarrow> volume_rec" where
  "derive_volumes v p w =
     (let injected = nadd (STEAM_INJECTION v) (WATER_INJECTION v);
          produced = sum_skipna [OIL v, WATER v];
          total = nadd (nneg injected) produced
      in volume.extend v
           (volume_rec.fields injected produced total p w))"

definition process_well_volumes :: "volume list \<Rightarrow> error + volume_rec list" where
  "process_well_volumes vs =
     (case str_split_expand (CHR ''-'') (map HOLE_NAME vs) of
        (n, rows) \<Rightarrow>
          if n \<noteq> 2 then Inl ValueError
          else Inr (map2 (\<lambda>v r. derive_volumes v (r ! 0) (r ! 1)) vs rows))"

section \<open>Processing the microseismic events\<close>

text \<open>\<^verbatim>\<open>to_period('M')\<close>: the calendar month of a timestamp, as the number of months since
  January 1970 (the ordinal the library stores for a monthly period).\<close>

fun to_period_M :: "timestamp \<Rightarrow> period" where
  "to_period_M (yr, mo, dy) = (yr - 1970) * 12 + (mo - 1)"

text \<open>\<^verbatim>\<open>df[['Events']].resample('M').count()\<close> followed by \<^verbatim>\<open>to_period('M')\<close> (lines 19-21 of
  \<^verbatim>\<open>python_code.py\<close>): one bin for every calendar month from the month of the earliest
  timestamp to the month of the latest one, each holding the number of rows that fall into it.
  An empty table gives an empty result.\<close>

definition resample_M_count :: "timestamp list \<Rightarrow> (period \<times> nat) list" where
  "resample_M_count idx =
     (if idx = [] then []
      else let ps = map to_period_M idx
           in map (\<lambda>p. (p, count_list ps p)) [Min (set ps) .. Max (set ps)])"

definition ms_fieldwide_of :: "event list \<Rightarrow> period frame" where
  "ms_fieldwide_of microseismic =
     (let counts = resample_M_count (map Date microseismic)
      in \<lparr>index = map fst counts, columns = [''Events''],
          cells = map (\<lambda>(p, n). [Some (real n)]) counts\<rparr>)"



section \<open>Processing the well locations\<close>

text \<open>\<^verbatim>\<open>s.replace(old, new)\<close> of Python for a non-empty \<open>old\<close>: scanning from the left,
  every occurrence of \<open>old\<close> that does not overlap an earlier one is replaced. (With an empty
  \<open>old\<close> nothing is replaced here; the scripts only call it with \<^verbatim>\<open>'PGKYP'\<close>.)\<close>

function str_replace :: "string \<Rightarrow> string \<Rightarrow> string \<Rightarrow> string" where
  "str_replace old new [] = []"
| "str_replace old new (c # s) =
     (if old \<noteq> [] \<and> prefix old (c # s)
      then new @ str_replace old new (drop (length old) (c # s))
      else c # str_replace old new s)"
  by pat_completeness auto
termination
  by (relation "measure (\<lambda>(old, new, s). length s)") auto

text \<open>Lines 31-32 of \<^verbatim>\<open>python_code.py\<close> (59-60 of \<^verbatim>\<open>app.py\<close>, 460-461 of \<^verbatim>\<open>PGKYP.py\<close>).\<close>

definition well_id_of :: "string \<Rightarrow> string" where
  "well_id_of name = str_replace ''PGKYP'' [] name"

definition process_well_locations :: "well list \<Rightarrow> well_loc list" where
  "process_well_locations ws = map (\<lambda>w. well.extend w (well_loc.fields (well_id_of (Name w)))) ws"

section \<open>Volumes per well\<close>









section \<open>Cumulative volumes, joins and correlation\<close>


record wells_row = well_loc +
  sums :: "real option list"

record wells_final_row = wells_row +
  Correlation :: "real option"











section \<open>The pipeline and the app\<close>







text \<open>The two cells that the split of one \<^verbatim>\<open>HOLE_NAME\<close> gives in a frame of two columns.\<close>

definition split_row :: "volume \<Rightarrow> string option list" where
  "split_row v = pad_row 2 (split_on (CHR ''-'') (HOLE_NAME v))"

text \<open>The calendar months in which the events of a table fall.\<close>

definition months_of :: "event list \<Rightarrow> period set" where
  "months_of ms = to_period_M ` Date ` set ms"

text \<open>The number of \<^verbatim>\<open>-\<close> characters in a name.\<close>

definition dashes :: "string \<Rightarrow> nat" where
  "dashes s = count_list s (CHR ''-'')"






section \<open>Derived volumes\<close>

lemma derive_volumes_sel:
  "INJECTED (derive_volumes v p w) = nadd (STEAM_INJECTION v) (WATER_INJECTION v)"
  "PRODUCED (derive_volumes v p w) = sum_skipna [OIL v, WATER v]"
  "TOTAL (derive_volumes v p w) =
     nadd (nneg (nadd (STEAM_INJECTION v) (WATER_INJECTION v))) (sum_skipna [OIL v, WATER v])"
  "prefix_col (derive_volumes v p w) = p"
  "vw_id (derive_volumes v p w) = w"
  "START_DATE (derive_volumes v p w) = START_DATE v"
  "HOLE_NAME (derive_volumes v p w) = HOLE_NAME v"
  by (simp_all add: derive_volumes_def Let_def volume.extend_def volume_rec.fields_def)

lemma map2_map_same: "map2 f vs (map g vs) = map (\<lambda>v. f v (g v)) vs"
  by (induction vs) simp_all

lemma process_well_volumes_Inr:
  assumes "process_well_volumes vs = Inr recs"
  shows "recs = map (\<lambda>v. derive_volumes v (split_row v ! 0) (split_row v ! 1)) vs"
    and "expand_width (map (\<lambda>v. split_on (CHR ''-'') (HOLE_NAME v)) vs) = 2"
proof -
  let ?rows = "map (\<lambda>v. split_on (CHR ''-'') (HOLE_NAME v)) vs"
  from assms show w: "expand_width ?rows = 2"
    by (simp add: process_well_volumes_def str_split_expand_def Let_def comp_def split: if_splits)
  from assms w have "recs = map2 (\<lambda>v r. derive_volumes v (r ! 0) (r ! 1)) vs (map split_row vs)"
    by (simp add: process_well_volumes_def str_split_expand_def Let_def comp_def
        split_row_def [abs_def] split: if_splits)
  then show "recs = map (\<lambda>v. derive_volumes v (split_row v ! 0) (split_row v ! 1)) vs"
    by (simp only: map2_map_same)
qed



section \<open>The magnitude filter\<close>




section \<open>Monthly event counts\<close>

lemma resample_index:
  "idx \<noteq> [] \<Longrightarrow> map fst (resample_M_count idx)
     = [Min (set (map to_period_M idx)) .. Max (set (map to_period_M idx))]"
  by (simp add: resample_M_count_def Let_def comp_def)

lemma count_list_map_filter: "count_list (map f xs) p = length (filter (\<lambda>t. f t = p) xs)"
  by (induction xs) simp_all

lemma resample_count:
  assumes "k < length (resample_M_count idx)"
  shows "snd (resample_M_count idx ! k)
     = length (filter (\<lambda>t. to_period_M t = fst (resample_M_count idx ! k)) idx)"
proof (cases "idx = []")
  case True
  with assms show ?thesis by (simp add: resample_M_count_def)
next
  case False
  with assms show ?thesis
    by (simp add: resample_M_count_def Let_def count_list_map_filter)
qed

text \<open>
  Claim C1, as the code has it. The monthly event counts are ordered ascending by month and
  hold one row for every calendar month from the month of the earliest event to the month of
  the latest one; the count of a row is the number of events in its month. A month inside the
  span without any event is therefore present, with count 0.
\<close>

theorem monthly_event_count_rows:
  "sorted_wrt (<) (index (ms_fieldwide_of ms))
   \<and> (ms \<noteq> [] \<longrightarrow> set (index (ms_fieldwide_of ms)) = {Min (months_of ms) .. Max (months_of ms)})
   \<and> length (cells (ms_fieldwide_of ms)) = length (index (ms_fieldwide_of ms))
   \<and> (\<forall>k < length (index (ms_fieldwide_of ms)).
        cells (ms_fieldwide_of ms) ! k
          = [Some (real (length (filter (\<lambda>e. to_period_M (Date e) = index (ms_fieldwide_of ms) ! k) ms)))])"
proof -
  let ?idx = "map Date ms"
  let ?c = "resample_M_count ?idx"
  have ix: "index (ms_fieldwide_of ms) = map fst ?c"
    and ce: "cells (ms_fieldwide_of ms) = map (\<lambda>(p, n). [Some (real n)]) ?c"
    by (simp_all add: ms_fieldwide_of_def Let_def)
  have s: "sorted_wrt (<) (index (ms_fieldwide_of ms))"
  proof (cases "ms = []")
    case True
    then show ?thesis by (simp add: ms_fieldwide_of_def resample_M_count_def)
  next
    case False
    then show ?thesis by (simp add: ix resample_index)
  qed
  have r: "ms \<noteq> [] \<longrightarrow> set (index (ms_fieldwide_of ms)) = {Min (months_of ms) .. Max (months_of ms)}"
    by (simp add: ix resample_index months_of_def image_image)
  have l: "length (cells (ms_fieldwide_of ms)) = length (index (ms_fieldwide_of ms))"
    by (simp add: ix ce)
  have c: "cells (ms_fieldwide_of ms) ! k
          = [Some (real (length (filter (\<lambda>e. to_period_M (Date e) = index (ms_fieldwide_of ms) ! k) ms)))]"
    if "k < length (index (ms_fieldwide_of ms))" for k
  proof -
    from that have k: "k < length ?c" by (simp add: ix)
    have "snd (?c ! k) = length (filter (\<lambda>e. to_period_M (Date e) = fst (?c ! k)) ms)"
      using resample_count [OF k] by (simp add: filter_map comp_def)
    with k show ?thesis
      by (simp add: ix ce split_beta)
  qed
  from s r l c show ?thesis by blast
qed

text \<open>The scenario of the specification: two events in January 2020 and one in February 2020
  give the rows (2020-01, 2) and (2020-02, 1).\<close>

theorem monthly_event_count_rows_witness:
  "(let ms =
      [\<lparr>Date = (2020, 1, 5), Easting = 0, Northing = 0, Depth_SS = 0, Moment_Magnitude = Some (3/2)\<rparr>,
       \<lparr>Date = (2020, 1, 20), Easting = 0, Northing = 0, Depth_SS = 0, Moment_Magnitude = Some (5/2)\<rparr>,
       \<lparr>Date = (2020, 2, 11), Easting = 0, Northing = 0, Depth_SS = 0, Moment_Magnitude = Some 3\<rparr>]
    in ms \<noteq> [] \<and> (1::nat) < length (index (ms_fieldwide_of ms))
       \<and> sorted_wrt (<) (index (ms_fieldwide_of ms))
       \<and> set (index (ms_fieldwide_of ms)) = {Min (months_of ms) .. Max (months_of ms)}
       \<and> index (ms_fieldwide_of ms) = [600, 601]
       \<and> cells (ms_fieldwide_of ms) ! 1
            = [Some (real (length (filter (\<lambda>e. to_period_M (Date e) = 601) ms)))]
       \<and> cells (ms_fieldwide_of ms) = [[Some 2], [Some 1]])"
proof -
  let ?ms =
     "[\<lparr>Date = (2020, 1, 5), Easting = 0, Northing = 0, Depth_SS = 0, Moment_Magnitude = Some (3/2)\<rparr>,
       \<lparr>Date = (2020, 1, 20), Easting = 0, Northing = 0, Depth_SS = 0, Moment_Magnitude = Some (5/2)\<rparr>,
       \<lparr>Date = (2020, 2, 11), Easting = 0, Northing = 0, Depth_SS = 0, Moment_Magnitude = Some (3::real)\<rparr>]"
  have run: "index (ms_fieldwide_of ?ms) = [600, 601]"
    and run': "cells (ms_fieldwide_of ?ms) = [[Some 2], [Some 1]]"
    by (simp_all add: ms_fieldwide_of_def resample_M_count_def)
  have ne: "?ms \<noteq> []" by simp
  have k: "(1::nat) < length (index (ms_fieldwide_of ?ms))" by (simp add: run)
  have s: "sorted_wrt (<) (index (ms_fieldwide_of ?ms))"
    using monthly_event_count_rows [of ?ms] by blast
  have r: "set (index (ms_fieldwide_of ?ms)) = {Min (months_of ?ms) .. Max (months_of ?ms)}"
    using monthly_event_count_rows [of ?ms] ne by blast
  have "cells (ms_fieldwide_of ?ms) ! 1
      = [Some (real (length (filter (\<lambda>e. to_period_M (Date e) = index (ms_fieldwide_of ?ms) ! 1) ?ms)))]"
    using monthly_event_count_rows [of ?ms] k by blast
  then have c: "cells (ms_fieldwide_of ?ms) ! 1
      = [Some (real (length (filter (\<lambda>e. to_period_M (Date e) = 601) ?ms)))]"
    by (simp only: run nth_Cons_Suc nth_Cons_0 One_nat_def)
  from ne k s r run c run' show ?thesis
    unfolding Let_def by blast
qed

text \<open>Claim C1 as the specification states it fails: with one event in January 2020 and one
  in March 2020, February 2020 (month 601) holds no event and is a row with count 0.\<close>

theorem monthly_event_count_gap_counterexample:
  "ms_fieldwide_of
     [\<lparr>Date = (2020, 1, 5), Easting = 0, Northing = 0, Depth_SS = 0, Moment_Magnitude = Some 1\<rparr>,
      \<lparr>Date = (2020, 3, 7), Easting = 0, Northing = 0, Depth_SS = 0, Moment_Magnitude = Some 2\<rparr>]
   = \<lparr>index = [600, 601, 602], columns = [''Events''], cells = [[Some 1], [Some 0], [Some 1]]\<rparr>
   \<and> filter (\<lambda>e. to_period_M (Date e) = 601)
     [\<lparr>Date = (2020, 1, 5), Easting = 0, Northing = 0, Depth_SS = 0, Moment_Magnitude = Some 1\<rparr>,
      \<lparr>Date = (2020, 3, 7), Easting = 0, Northing = 0, Depth_SS = 0, Moment_Magnitude = Some 2\<rparr>] = []"
  by (simp add: ms_fieldwide_of_def resample_M_count_def)

section \<open>The well identifier\<close>

lemma str_replace_absent:
  "\<not> sublist old s \<Longrightarrow> str_replace old new s = s"
proof (induction old new s rule: str_replace.induct)
  case (1 old new)
  then show ?case by simp
next
  case (2 old new c s)
  from "2.prems" have np: "\<not> prefix old (c # s)" and ns: "\<not> sublist old s"
    by (auto simp: sublist_Cons_right)
  with "2.IH"(2) show ?case by simp
qed

lemma str_replace_prefix:
  assumes "old \<noteq> []"
  shows "str_replace old new (old @ rest) = new @ str_replace old new rest"
  using assms by (cases old) simp_all

lemma str_replace_leftmost:
  assumes "old \<noteq> []" and "\<not> sublist old (a @ butlast old)"
  shows "str_replace old new (a @ old @ b) = a @ new @ str_replace old new b"
  using assms(2)
proof (induction a)
  case Nil
  then show ?case using assms(1) by (simp add: str_replace_prefix)
next
  case (Cons c a)
  have np: "\<not> prefix old (c # a @ old @ b)"
  proof
    assume p: "prefix old (c # a @ old @ b)"
    have q: "prefix ((c # a) @ butlast old) (c # a @ old @ b)"
      using assms(1) by (simp add: prefix_def) (metis append_butlast_last_id append_assoc)
    have "length old \<le> length ((c # a) @ butlast old)" by simp
    with p q have "prefix old ((c # a) @ butlast old)"
      using prefix_length_prefix by blast
    then have "sublist old ((c # a) @ butlast old)" by (rule prefix_imp_sublist)
    with Cons.prems show False by simp
  qed
  from Cons.prems have "\<not> sublist old (a @ butlast old)"
    by (auto simp: sublist_Cons_right)
  with Cons.IH np show ?case by simp
qed

text \<open>
  Claim C2, as the code has it. For every row of the Well table, \<open>w_id\<close> is \<open>Name\<close> with the
  occurrences of the literal \<^verbatim>\<open>PGKYP\<close> removed, wherever they stand: a name without the literal
  is its own identifier, unchanged; the leftmost occurrence is cut out and the rest of the name
  is treated the same way; so a name that starts with the literal and holds it only there gets
  the name without the prefix.
\<close>

theorem well_id_derivation:
  assumes "i < length ws"
  shows "length (process_well_locations ws) = length ws
    \<and> Name (process_well_locations ws ! i) = Name (ws ! i)
    \<and> (\<not> sublist ''PGKYP'' (Name (ws ! i)) \<longrightarrow> w_id (process_well_locations ws ! i) = Name (ws ! i))
    \<and> (\<forall>a b. Name (ws ! i) = a @ ''PGKYP'' @ b \<and> \<not> sublist ''PGKYP'' (a @ ''PGKY'')
          \<longrightarrow> w_id (process_well_locations ws ! i) = a @ well_id_of b)
    \<and> (\<forall>rest. Name (ws ! i) = ''PGKYP'' @ rest \<and> \<not> sublist ''PGKYP'' rest
          \<longrightarrow> w_id (process_well_locations ws ! i) = rest)"
proof -
  have w: "w_id (process_well_locations ws ! i) = well_id_of (Name (ws ! i))"
    and n: "Name (process_well_locations ws ! i) = Name (ws ! i)"
    using assms by (simp_all add: process_well_locations_def well.extend_def well_loc.fields_def)
  have l: "length (process_well_locations ws) = length ws"
    by (simp add: process_well_locations_def)
  have absent: "\<not> sublist ''PGKYP'' s \<Longrightarrow> well_id_of s = s" for s
    unfolding well_id_of_def by (rule str_replace_absent)
  have left: "well_id_of (a @ ''PGKYP'' @ b) = a @ well_id_of b"
    if "\<not> sublist ''PGKYP'' (a @ ''PGKY'')" for a b
    unfolding well_id_of_def using str_replace_leftmost [of "''PGKYP''" a "[]" b] that by simp
  have pre: "well_id_of (''PGKYP'' @ rest) = rest" if "\<not> sublist ''PGKYP'' rest" for rest
    using left [of "[]" rest] absent [OF that] by (simp add: sublist_code)
  from l n w absent left pre show ?thesis by metis
qed

text \<open>The well \<^verbatim>\<open>PGKYP07\<close> gets the identifier \<^verbatim>\<open>07\<close>.\<close>

theorem well_id_derivation_witness:
  "(let ws = [\<lparr>Name = ''PGKYP07'', Type = ''Producer'', well_x = 0, well_y = 0, well_z = 0\<rparr>]
    in 0 < length ws \<and> Name (ws ! 0) = ''PGKYP'' @ ''07'' \<and> \<not> sublist ''PGKYP'' ''07''
       \<and> w_id (process_well_locations ws ! 0) = ''07'')"
proof -
  let ?ws = "[\<lparr>Name = ''PGKYP07'', Type = ''Producer'', well_x = 0, well_y = 0, well_z = 0\<rparr>]"
  have a: "0 < length ?ws" by simp
  have b: "Name (?ws ! 0) = ''PGKYP'' @ ''07''" by simp
  have c: "\<not> sublist ''PGKYP'' ''07''" by (simp add: sublist_code)
  from well_id_derivation [OF a] b c have "w_id (process_well_locations ?ws ! 0) = ''07''"
    by blast
  with a b c show ?thesis unfolding Let_def by blast
qed

text \<open>Claim C2 as the specification states it fails: the name \<^verbatim>\<open>W07\<close>, without the prefix, keeps
  its name as identifier (not an empty one), and in \<^verbatim>\<open>XPGKYP07\<close> an occurrence that is not a
  prefix is removed.\<close>

theorem well_id_absent_prefix_counterexample:
  "\<not> sublist ''PGKYP'' ''W07''
   \<and> process_well_locations
       [\<lparr>Name = ''W07'', Type = ''Producer'', well_x = 0, well_y = 0, well_z = 0\<rparr>]
     = [\<lparr>Name = ''W07'', Type = ''Producer'', well_x = 0, well_y = 0, well_z = 0, w_id = ''W07''\<rparr>]
   \<and> process_well_locations
       [\<lparr>Name = ''XPGKYP07'', Type = ''Producer'', well_x = 0, well_y = 0, well_z = 0\<rparr>]
     = [\<lparr>Name = ''XPGKYP07'', Type = ''Producer'', well_x = 0, well_y = 0, well_z = 0, w_id = ''X07''\<rparr>]"
  by (simp add: sublist_code well_id_of_def process_well_locations_def well.extend_def
      well_loc.fields_def)

section \<open>Splitting the hole name\<close>

lemma split_on_not_Nil: "split_on c s \<noteq> []"
  by (induction s) (simp_all split: list.splits)

lemma length_split_on: "length (split_on c s) = Suc (count_list s c)"
proof (induction s)
  case Nil
  then show ?case by simp
next
  case (Cons a s)
  obtain p ps where "split_on c s = p # ps"
    using split_on_not_Nil [of c s] by (cases "split_on c s") auto
  with Cons show ?case by auto
qed

lemma split_on_absent: "c \<notin> set s \<Longrightarrow> split_on c s = [s]"
proof (induction s)
  case Nil
  then show ?case by simp
next
  case (Cons a s)
  from Cons.prems have "a \<noteq> c" and "c \<notin> set s" by auto
  with Cons.IH show ?case by simp
qed

lemma split_on_first: "c \<notin> set p \<Longrightarrow> split_on c (p @ c # rest) = p # split_on c rest"
proof (induction p)
  case Nil
  then show ?case by simp
next
  case (Cons a p)
  from Cons.prems have "a \<noteq> c" and "c \<notin> set p" by auto
  with Cons.IH show ?case by simp
qed

lemma expand_width_le: "expand_width rows \<le> n \<longleftrightarrow> (\<forall>r \<in> set rows. length r \<le> n)"
  by (induction rows) (simp_all add: expand_width_def)

lemma expand_width_ge: "0 < n \<Longrightarrow> n \<le> expand_width rows \<longleftrightarrow> (\<exists>r \<in> set rows. n \<le> length r)"
  by (induction rows) (simp_all add: expand_width_def le_max_iff_disj)

lemma expand_width_two:
  "expand_width rows = 2 \<longleftrightarrow> (\<forall>r \<in> set rows. length r \<le> 2) \<and> (\<exists>r \<in> set rows. length r = 2)"
proof -
  have "expand_width rows = 2 \<longleftrightarrow> expand_width rows \<le> 2 \<and> 2 \<le> expand_width rows"
    by arith
  also have "\<dots> \<longleftrightarrow> (\<forall>r \<in> set rows. length r \<le> 2) \<and> (\<exists>r \<in> set rows. 2 \<le> length r)"
    by (simp add: expand_width_le expand_width_ge)
  also have "\<dots> \<longleftrightarrow> (\<forall>r \<in> set rows. length r \<le> 2) \<and> (\<exists>r \<in> set rows. length r = 2)"
  proof -
    have "(\<exists>r \<in> set rows. 2 \<le> length r) \<longleftrightarrow> (\<exists>r \<in> set rows. length r = 2)"
      if le: "\<forall>r \<in> set rows. length r \<le> 2"
    proof
      assume "\<exists>r \<in> set rows. 2 \<le> length r"
      then obtain r where r: "r \<in> set rows" "2 \<le> length r" by blast
      from le r(1) have "length r \<le> 2" by blast
      with r(2) have "length r = 2" by simp
      with r(1) show "\<exists>r \<in> set rows. length r = 2" by blast
    next
      assume "\<exists>r \<in> set rows. length r = 2"
      then obtain r where "r \<in> set rows" "length r = 2" by blast
      then have "r \<in> set rows" "2 \<le> length r" by simp_all
      then show "\<exists>r \<in> set rows. 2 \<le> length r" by blast
    qed
    then show ?thesis by blast
  qed
  finally show ?thesis .
qed

lemma process_well_volumes_ok_iff:
  "(\<exists>recs. process_well_volumes vs = Inr recs) \<longleftrightarrow>
     (\<forall>v \<in> set vs. dashes (HOLE_NAME v) \<le> 1) \<and> (\<exists>v \<in> set vs. dashes (HOLE_NAME v) = 1)"
proof -
  have "(\<exists>recs. process_well_volumes vs = Inr recs) \<longleftrightarrow>
      expand_width (map (split_on (CHR ''-'')) (map HOLE_NAME vs)) = 2"
    by (simp add: process_well_volumes_def str_split_expand_def Let_def)
  also have "\<dots> \<longleftrightarrow> (\<forall>v \<in> set vs. dashes (HOLE_NAME v) \<le> 1) \<and> (\<exists>v \<in> set vs. dashes (HOLE_NAME v) = 1)"
    unfolding expand_width_two by (simp add: length_split_on dashes_def)
  finally show ?thesis .
qed

lemma process_well_volumes_error:
  "process_well_volumes vs = Inl e \<Longrightarrow> e = ValueError"
  by (simp add: process_well_volumes_def split: prod.splits if_splits)

lemma split_row_absent:
  "CHR ''-'' \<notin> set s \<Longrightarrow> pad_row 2 (split_on (CHR ''-'') s) = [Some s, None]"
  by (simp add: split_on_absent pad_row_def numeral_2_eq_2)

lemma split_row_one:
  "CHR ''-'' \<notin> set p \<Longrightarrow> CHR ''-'' \<notin> set w
    \<Longrightarrow> pad_row 2 (split_on (CHR ''-'') (p @ CHR ''-'' # w)) = [Some p, Some w]"
  by (simp add: split_on_first split_on_absent pad_row_def)

lemma count_list_zero: "count_list s c = 0 \<longleftrightarrow> c \<notin> set s"
  by (induction s) simp_all

lemma one_dash_cases:
  assumes "vs \<noteq> []"
  shows "(\<forall>v \<in> set vs. dashes (HOLE_NAME v) \<le> 1) \<and> (\<exists>v \<in> set vs. dashes (HOLE_NAME v) = 1)
        \<longleftrightarrow> \<not> ((\<exists>v \<in> set vs. 2 \<le> dashes (HOLE_NAME v)) \<or> (\<forall>v \<in> set vs. dashes (HOLE_NAME v) = 0))"
    (is "?l \<longleftrightarrow> \<not> ?r")
proof
  assume l: ?l
  show "\<not> ?r"
  proof
    assume ?r
    then show False
    proof
      assume "\<exists>v \<in> set vs. 2 \<le> dashes (HOLE_NAME v)"
      then obtain v where v: "v \<in> set vs" "2 \<le> dashes (HOLE_NAME v)" by blast
      from l v(1) have "dashes (HOLE_NAME v) \<le> 1" by blast
      with v(2) show False by simp
    next
      assume z: "\<forall>v \<in> set vs. dashes (HOLE_NAME v) = 0"
      from l obtain v where v: "v \<in> set vs" "dashes (HOLE_NAME v) = 1" by blast
      from z v(1) have "dashes (HOLE_NAME v) = 0" by blast
      with v(2) show False by simp
    qed
  qed
next
  assume nr: "\<not> ?r"
  have le: "\<forall>v \<in> set vs. dashes (HOLE_NAME v) \<le> 1"
  proof
    fix v assume "v \<in> set vs"
    with nr have "\<not> 2 \<le> dashes (HOLE_NAME v)" by blast
    then show "dashes (HOLE_NAME v) \<le> 1" by simp
  qed
  from nr obtain v where v: "v \<in> set vs" "dashes (HOLE_NAME v) \<noteq> 0" by blast
  from le v(1) have "dashes (HOLE_NAME v) \<le> 1" by blast
  with v(2) have "dashes (HOLE_NAME v) = 1" by simp
  with v(1) le show ?l by blast
qed

text \<open>
  Claim C3, as the code has it. The split of \<^verbatim>\<open>HOLE_NAME\<close> is checked for the table as a whole,
  not row by row. For a table with at least one row, the normalization raises an error (a
  ValueError; the code has no ParseError) exactly when some name holds two or more \<^verbatim>\<open>-\<close> or no
  name holds any. Otherwise it succeeds: a row with one \<^verbatim>\<open>-\<close> gets the text before it as
  prefix and the text after it as identifier, and a row without \<^verbatim>\<open>-\<close> gets its whole name as
  prefix and a missing identifier.
\<close>

theorem hole_name_split:
  assumes "vs \<noteq> []"
  shows "(process_well_volumes vs = Inl ValueError \<longleftrightarrow>
            (\<exists>v \<in> set vs. 2 \<le> dashes (HOLE_NAME v)) \<or> (\<forall>v \<in> set vs. dashes (HOLE_NAME v) = 0))
    \<and> (\<forall>recs i. process_well_volumes vs = Inr recs \<and> i < length vs \<longrightarrow>
          length recs = length vs
          \<and> (dashes (HOLE_NAME (vs ! i)) = 0 \<longrightarrow>
                prefix_col (recs ! i) = Some (HOLE_NAME (vs ! i)) \<and> vw_id (recs ! i) = None)
          \<and> (\<forall>p w. HOLE_NAME (vs ! i) = p @ ''-'' @ w \<longrightarrow>
                prefix_col (recs ! i) = Some p \<and> vw_id (recs ! i) = Some w))"
proof -
  have ok: "(\<exists>recs. process_well_volumes vs = Inr recs) \<longleftrightarrow>
     (\<forall>v \<in> set vs. dashes (HOLE_NAME v) \<le> 1) \<and> (\<exists>v \<in> set vs. dashes (HOLE_NAME v) = 1)"
    by (rule process_well_volumes_ok_iff)
  have err: "process_well_volumes vs = Inl ValueError \<longleftrightarrow> \<not> (\<exists>recs. process_well_volumes vs = Inr recs)"
  proof (cases "process_well_volumes vs")
    case (Inl e)
    with process_well_volumes_error [of vs e] show ?thesis by simp
  next
    case (Inr recs)
    then show ?thesis by simp
  qed
  have a: "process_well_volumes vs = Inl ValueError \<longleftrightarrow>
            (\<exists>v \<in> set vs. 2 \<le> dashes (HOLE_NAME v)) \<or> (\<forall>v \<in> set vs. dashes (HOLE_NAME v) = 0)"
    using err ok one_dash_cases [OF assms] by blast
  have b: "length recs = length vs
          \<and> (dashes (HOLE_NAME (vs ! i)) = 0 \<longrightarrow>
                prefix_col (recs ! i) = Some (HOLE_NAME (vs ! i)) \<and> vw_id (recs ! i) = None)
          \<and> (\<forall>p w. HOLE_NAME (vs ! i) = p @ ''-'' @ w \<longrightarrow>
                prefix_col (recs ! i) = Some p \<and> vw_id (recs ! i) = Some w)"
    if run: "process_well_volumes vs = Inr recs" and i: "i < length vs" for recs i
  proof -
    note recs = process_well_volumes_Inr(1) [OF run]
    from recs i have ri:
      "recs ! i = derive_volumes (vs ! i) (split_row (vs ! i) ! 0) (split_row (vs ! i) ! 1)"
      by simp
    from recs have l: "length recs = length vs" by simp
    have z: "prefix_col (recs ! i) = Some (HOLE_NAME (vs ! i)) \<and> vw_id (recs ! i) = None"
      if "dashes (HOLE_NAME (vs ! i)) = 0"
    proof -
      from that have "CHR ''-'' \<notin> set (HOLE_NAME (vs ! i))"
        by (simp add: dashes_def count_list_zero)
      then have "split_row (vs ! i) = [Some (HOLE_NAME (vs ! i)), None]"
        unfolding split_row_def by (rule split_row_absent)
      then show ?thesis by (simp add: ri derive_volumes_sel)
    qed
    have o: "prefix_col (recs ! i) = Some p \<and> vw_id (recs ! i) = Some w"
      if h: "HOLE_NAME (vs ! i) = p @ ''-'' @ w" for p w
    proof -
      from run ok have "\<forall>v \<in> set vs. dashes (HOLE_NAME v) \<le> 1" by blast
      moreover from i have "vs ! i \<in> set vs" by simp
      ultimately have "dashes (HOLE_NAME (vs ! i)) \<le> 1" by blast
      with h have "count_list p (CHR ''-'') + count_list w (CHR ''-'') = 0"
        by (simp add: dashes_def)
      then have "CHR ''-'' \<notin> set p" "CHR ''-'' \<notin> set w"
        by (simp_all add: count_list_zero)
      then have "pad_row 2 (split_on (CHR ''-'') (p @ CHR ''-'' # w)) = [Some p, Some w]"
        by (rule split_row_one)
      with h have "split_row (vs ! i) = [Some p, Some w]"
        by (simp add: split_row_def)
      then show ?thesis by (simp add: ri derive_volumes_sel)
    qed
    from l z o show ?thesis by blast
  qed
  from a b show ?thesis by blast
qed

text \<open>A table with the names \<^verbatim>\<open>PGKYP-07\<close> and \<^verbatim>\<open>PGKYP-08-A\<close> is rejected.\<close>

theorem hole_name_split_witness:
  "(let vs = [\<lparr>HOLE_NAME = ''PGKYP-07'', START_DATE = (2020, 1, 1), OIL = Some 100, WATER = Some 50,
               STEAM_INJECTION = Some 20, WATER_INJECTION = Some 10\<rparr>,
              \<lparr>HOLE_NAME = ''PGKYP-08-A'', START_DATE = (2020, 1, 1), OIL = Some 0, WATER = Some 0,
               STEAM_INJECTION = Some 5, WATER_INJECTION = Some 5\<rparr>];
        us = [\<lparr>HOLE_NAME = ''PGKYP-07'', START_DATE = (2020, 1, 1), OIL = Some 100, WATER = Some 50,
               STEAM_INJECTION = Some 20, WATER_INJECTION = Some 10\<rparr>];
        recs = [\<lparr>HOLE_NAME = ''PGKYP-07'', START_DATE = (2020, 1, 1), OIL = Some 100, WATER = Some 50,
               STEAM_INJECTION = Some 20, WATER_INJECTION = Some 10, INJECTED = Some 30,
               PRODUCED = Some 150, TOTAL = Some 120, prefix_col = Some ''PGKYP'',
               vw_id = Some ''07''\<rparr>]
    in vs \<noteq> [] \<and> vs ! 1 \<in> set vs \<and> 2 \<le> dashes (HOLE_NAME (vs ! 1))
       \<and> process_well_volumes vs = Inl ValueError
       \<and> us \<noteq> [] \<and> process_well_volumes us = Inr recs \<and> (0::nat) < length us
       \<and> HOLE_NAME (us ! 0) = ''PGKYP'' @ ''-'' @ ''07''
       \<and> prefix_col (recs ! 0) = Some ''PGKYP'' \<and> vw_id (recs ! 0) = Some ''07'')"
proof -
  let ?vs = "[\<lparr>HOLE_NAME = ''PGKYP-07'', START_DATE = (2020, 1, 1), OIL = Some 100, WATER = Some 50,
               STEAM_INJECTION = Some 20, WATER_INJECTION = Some 10\<rparr>,
              \<lparr>HOLE_NAME = ''PGKYP-08-A'', START_DATE = (2020, 1, 1), OIL = Some 0, WATER = Some 0,
               STEAM_INJECTION = Some 5, WATER_INJECTION = Some (5::real)\<rparr>]"
  let ?us = "[\<lparr>HOLE_NAME = ''PGKYP-07'', START_DATE = (2020, 1, 1), OIL = Some 100, WATER = Some 50,
               STEAM_INJECTION = Some 20, WATER_INJECTION = Some (10::real)\<rparr>]"
  let ?recs = "[\<lparr>HOLE_NAME = ''PGKYP-07'', START_DATE = (2020, 1, 1), OIL = Some 100, WATER = Some 50,
               STEAM_INJECTION = Some 20, WATER_INJECTION = Some 10, INJECTED = Some 30,
               PRODUCED = Some 150, TOTAL = Some (120::real), prefix_col = Some ''PGKYP'',
               vw_id = Some ''07''\<rparr>]"
  have a: "?vs \<noteq> []" by simp
  have b: "?vs ! 1 \<in> set ?vs" by simp
  have c: "2 \<le> dashes (HOLE_NAME (?vs ! 1))" by (simp add: dashes_def)
  from hole_name_split [OF a] b c have d: "process_well_volumes ?vs = Inl ValueError"
    by blast
  have e: "?us \<noteq> []" by simp
  have f: "process_well_volumes ?us = Inr ?recs"
    by (simp add: process_well_volumes_def str_split_expand_def expand_width_def pad_row_def
        derive_volumes_def sum_skipna_def volume.extend_def volume_rec.fields_def Let_def)
  have g: "(0::nat) < length ?us" by simp
  have h: "HOLE_NAME (?us ! 0) = ''PGKYP'' @ ''-'' @ ''07''" by simp
  from hole_name_split [OF e] f g h
  have i: "prefix_col (?recs ! 0) = Some ''PGKYP'' \<and> vw_id (?recs ! 0) = Some ''07''"
    by blast
  from a b c d e f g h i show ?thesis unfolding Let_def by blast
qed

text \<open>Claim C3 as the specification states it fails: next to \<^verbatim>\<open>PGKYP-07\<close>, the name \<^verbatim>\<open>PGKYP08\<close>
  without a delimiter raises nothing; its row gets the prefix \<^verbatim>\<open>PGKYP08\<close> and no identifier.\<close>

theorem hole_name_split_counterexample:
  "dashes ''PGKYP08'' = 0
   \<and> process_well_volumes
     [\<lparr>HOLE_NAME = ''PGKYP-07'', START_DATE = (2020, 1, 1), OIL = Some 100, WATER = Some 50,
       STEAM_INJECTION = Some 20, WATER_INJECTION = Some 10\<rparr>,
      \<lparr>HOLE_NAME = ''PGKYP08'', START_DATE = (2020, 1, 1), OIL = Some 0, WATER = Some 0,
       STEAM_INJECTION = Some 5, WATER_INJECTION = Some 5\<rparr>]
   = Inr [\<lparr>HOLE_NAME = ''PGKYP-07'', START_DATE = (2020, 1, 1), OIL = Some 100, WATER = Some 50,
       STEAM_INJECTION = Some 20, WATER_INJECTION = Some 10, INJECTED = Some 30,
       PRODUCED = Some 150, TOTAL = Some 120, prefix_col = Some ''PGKYP'', vw_id = Some ''07''\<rparr>,
      \<lparr>HOLE_NAME = ''PGKYP08'', START_DATE = (2020, 1, 1), OIL = Some 0, WATER = Some 0,
       STEAM_INJECTION = Some 5, WATER_INJECTION = Some 5, INJECTED = Some 10,
       PRODUCED = Some 0, TOTAL = Some (- 10), prefix_col = Some ''PGKYP08'', vw_id = None\<rparr>]"
  by (simp add: dashes_def process_well_volumes_def str_split_expand_def expand_width_def pad_row_def
        derive_volumes_def sum_skipna_def volume.extend_def volume_rec.fields_def Let_def)

section \<open>The gate of the app\<close>






section \<open>The correlation matrix\<close>

















section \<open>The pivot of the volumes\<close>

















section \<open>The filled table\<close>






end
